theory Spec2Isabelle
  imports Main "HOL-Library.Word"
begin

unbundle bit_operations_syntax

section \<open>Data model of \<open>app/main.go\<close>\<close>

text \<open>
  Go's \<open>uint8\<close>, \<open>uint16\<close> and \<open>uint32\<close> are words of that width. A Go
  \<open>string\<close> is an immutable sequence of bytes and the conversions \<open>string(b)\<close> and
  \<open>[]byte(s)\<close> copy the bytes unchanged, so strings and byte slices are both lists of
  bytes. A slice is a list: \<open>nil\<close> and the empty slice are both \<open>[]\<close>.
\<close>

type_synonym byte = "8 word"
type_synonym uint16 = "16 word"
type_synonym uint32 = "32 word"
type_synonym gostring = "byte list"

record Header =
  ID :: uint16
  QR :: byte
  OPCODE :: byte
  AA :: byte
  TC :: byte
  RD :: byte
  RA :: byte
  Z :: byte
  RCODE :: byte
  QDCOUNT :: uint16
  ANCOUNT :: uint16
  NSCOUNT :: uint16
  ARCOUNT :: uint16

record Question =
  Name :: gostring
  Type :: uint16
  Class :: uint16

record RR =
  Name :: gostring
  Type :: uint16
  Class :: uint16
  TTL :: uint32
  Length :: uint16
  Data :: "byte list"

text \<open>\<open>DNSMessage\<close> embeds a \<open>Header\<close>; the embedded struct is the field \<open>Header\<close>.\<close>

record DNSMessage =
  Header :: Header
  Questions :: "Question list"
  Answer :: "RR list"

text \<open>The zero values that \<open>var msg DNSMessage\<close> declares.\<close>

definition zeroHeader :: Header where
  "zeroHeader = \<lparr>ID = 0, QR = 0, OPCODE = 0, AA = 0, TC = 0, RD = 0, RA = 0, Z = 0,
     RCODE = 0, QDCOUNT = 0, ANCOUNT = 0, NSCOUNT = 0, ARCOUNT = 0\<rparr>"

definition zeroDNSMessage :: DNSMessage where
  "zeroDNSMessage = \<lparr>Header = zeroHeader, Questions = [], Answer = []\<rparr>"

section \<open>Errors\<close>

text \<open>
  The two errors of package \<open>io\<close> that a read past the end gives, and one constructor
  for each \<open>fmt.Errorf\<close> of the source (the wrapped error is its argument).
\<close>

datatype io_error = EOF | ErrUnexpectedEOF

datatype error =
    HeaderTooShort
  | FailedNameLength io_error
  | FailedPointerSecondPart io_error
  | FailedNameLabels io_error
  | FailedQuestionName error
  | FailedQuestionType io_error
  | FailedQuestionClass io_error
  | FailedRRName error
  | FailedRRType io_error
  | FailedRRClass io_error
  | FailedRRTTL io_error
  | FailedRRDataLength io_error
  | FailedRRData io_error

section \<open>The reader and big-endian integers\<close>

text \<open>
  A \<open>bytes.Reader\<close> is the slice \<open>s\<close> it reads and its position \<open>i\<close>. The slice
  never changes, so the functions below take \<open>s\<close> and \<open>i\<close> and return the new
  position with their result. \<open>Seek(offset, io.SeekStart)\<close> sets the position to
  \<open>offset\<close>, which may lie beyond the end.

  \<open>Reader.Read(b)\<close> with \<open>len(b) = n\<close>: at or beyond the end it returns \<open>io.EOF\<close>
  (also when \<open>n = 0\<close>); otherwise it copies \<open>min n (len s - i)\<close> bytes into \<open>b\<close>,
  advances by that many and returns no error. The callers ignore the count and pass a
  fresh zeroed \<open>b\<close>, so the result is \<open>b\<close> afterwards: the bytes copied, then zeros.
\<close>

definition Reader_Read :: "byte list \<Rightarrow> nat \<Rightarrow> nat \<Rightarrow> (io_error + byte list) \<times> nat" where
  "Reader_Read s i n =
     (if length s \<le> i then (Inl EOF, i)
      else (Inr (take n (drop i s) @ replicate (n - (length s - i)) 0),
            i + min n (length s - i)))"

text \<open>
  \<open>io.ReadFull\<close>, through which \<open>binary.Read\<close> fills its \<open>n\<close>-byte buffer: nothing
  to read gives \<open>io.EOF\<close>, fewer than \<open>n\<close> bytes gives \<open>io.ErrUnexpectedEOF\<close>.
\<close>

definition ReadFull :: "byte list \<Rightarrow> nat \<Rightarrow> nat \<Rightarrow> (io_error + byte list) \<times> nat" where
  "ReadFull s i n =
     (if n = 0 then (Inr [], i)
      else if length s \<le> i then (Inl EOF, i)
      else if length s - i < n then (Inl ErrUnexpectedEOF, length s)
      else (Inr (take n (drop i s)), i + n))"

definition Uint16 :: "byte list \<Rightarrow> uint16" where
  "Uint16 b = ucast (b ! 1) OR push_bit 8 (ucast (b ! 0))"

definition Uint32 :: "byte list \<Rightarrow> uint32" where
  "Uint32 b = ucast (b ! 3) OR push_bit 8 (ucast (b ! 2)) OR push_bit 16 (ucast (b ! 1))
     OR push_bit 24 (ucast (b ! 0))"

definition PutUint16 :: "uint16 \<Rightarrow> byte list" where
  "PutUint16 v = [ucast (drop_bit 8 v), ucast v]"

definition PutUint32 :: "uint32 \<Rightarrow> byte list" where
  "PutUint32 v = [ucast (drop_bit 24 v), ucast (drop_bit 16 v), ucast (drop_bit 8 v), ucast v]"

text \<open>\<open>binary.Read(reader, binary.BigEndian, &x)\<close> for \<open>x\<close> a byte, uint16, uint32.\<close>

definition Read_byte :: "byte list \<Rightarrow> nat \<Rightarrow> (io_error + byte) \<times> nat" where
  "Read_byte s i =
     (case ReadFull s i 1 of
        (Inl e, j) \<Rightarrow> (Inl e, j)
      | (Inr bs, j) \<Rightarrow> (Inr (bs ! 0), j))"

definition Read_uint16 :: "byte list \<Rightarrow> nat \<Rightarrow> (io_error + uint16) \<times> nat" where
  "Read_uint16 s i =
     (case ReadFull s i 2 of
        (Inl e, j) \<Rightarrow> (Inl e, j)
      | (Inr bs, j) \<Rightarrow> (Inr (Uint16 bs), j))"

definition Read_uint32 :: "byte list \<Rightarrow> nat \<Rightarrow> (io_error + uint32) \<times> nat" where
  "Read_uint32 s i =
     (case ReadFull s i 4 of
        (Inl e, j) \<Rightarrow> (Inl e, j)
      | (Inr bs, j) \<Rightarrow> (Inr (Uint32 bs), j))"

section \<open>Header\<close>

definition Header_serialize :: "Header \<Rightarrow> byte list" where
  "Header_serialize h =
     PutUint16 (ID h)
     @ [push_bit 7 (QR h) OR push_bit 3 (OPCODE h) OR push_bit 2 (AA h)
          OR push_bit 1 (TC h) OR RD h,
        push_bit 7 (RA h) OR push_bit 4 (Z h) OR RCODE h]
     @ PutUint16 (QDCOUNT h) @ PutUint16 (ANCOUNT h)
     @ PutUint16 (NSCOUNT h) @ PutUint16 (ARCOUNT h)"

definition parseHeader :: "byte list \<Rightarrow> error + Header" where
  "parseHeader data =
     (if length data < 12 then Inl HeaderTooShort
      else
        let flags = Uint16 (take 2 (drop 2 data)) in
        Inr \<lparr>ID = Uint16 (take 2 data),
             QR = ucast (drop_bit 15 flags AND 1),
             OPCODE = ucast (drop_bit 11 flags AND 15),
             AA = ucast (drop_bit 10 flags AND 1),
             TC = ucast (drop_bit 9 flags AND 1),
             RD = ucast (drop_bit 8 flags AND 1),
             RA = ucast (drop_bit 7 flags AND 1),
             Z = ucast (drop_bit 4 flags AND 7),
             RCODE = ucast (flags AND 15),
             QDCOUNT = Uint16 (take 2 (drop 4 data)),
             ANCOUNT = Uint16 (take 2 (drop 6 data)),
             NSCOUNT = Uint16 (take 2 (drop 8 data)),
             ARCOUNT = Uint16 (take 2 (drop 10 data))\<rparr>)"

section \<open>Domain names\<close>

text \<open>
  \<open>strings.Split(domain, ".")\<close> cuts at every byte \<open>0x2E\<close>: \<open>n\<close> dots give
  \<open>n + 1\<close> parts, and the empty string gives one empty part. The first argument is the
  part read so far.
\<close>

fun Split :: "gostring \<Rightarrow> gostring \<Rightarrow> gostring list" where
  "Split acc [] = [acc]"
| "Split acc (c # cs) = (if c = 46 then acc # Split [] cs else Split (acc @ [c]) cs)"

text \<open>\<open>strings.Join(nameParts, ".")\<close>.\<close>

fun Join :: "gostring list \<Rightarrow> gostring" where
  "Join [] = []"
| "Join [p] = p"
| "Join (p # ps) = p @ [46] @ Join ps"

text \<open>
  \<open>serializeDomain\<close>: the loop over the labels appends \<open>byte(len(label))\<close>, which keeps
  the low 8 bits of the length, then the label; a zero byte ends the name.
\<close>

fun serializeLabels :: "byte list \<Rightarrow> gostring list \<Rightarrow> byte list" where
  "serializeLabels buffer [] = buffer"
| "serializeLabels buffer (label # labels) =
     serializeLabels (buffer @ [of_nat (length label)] @ label) labels"

definition serializeDomain :: "gostring \<Rightarrow> byte list" where
  "serializeDomain domain = serializeLabels [] (Split [] domain) @ [0]"

text \<open>
  \<open>parseName\<close>. The loop state is the reader position and \<open>nameParts\<close> (\<open>len\<close> is the
  source's \<open>length\<close>);
  \<open>parseName_loop data i nameParts\<close> is the loop entered at position \<open>i\<close>, and
  \<open>parseName(reader, offset)\<close> enters it at \<open>offset\<close> with no parts. A pointer calls
  \<open>parseName\<close> again on the same reader, which is left where that call ends. Nothing
  bounds the recursion, so the function is partial: \<open>None\<close> is a call that never
  returns. The result is the pair that the source returns (the name is \<open>""\<close> on error)
  as a sum, with the position of the reader afterwards.
\<close>

partial_function (option) parseName_loop ::
  "byte list \<Rightarrow> nat \<Rightarrow> gostring list \<Rightarrow> ((error + gostring) \<times> nat) option" where
  "parseName_loop data i nameParts =
     (case Read_byte data i of
        (Inl err, i1) \<Rightarrow> Some (Inl (FailedNameLength err), i1)
      | (Inr len, i1) \<Rightarrow>
          if 192 \<le> len then
            (case Read_byte data i1 of
               (Inl err, i2) \<Rightarrow> Some (Inl (FailedPointerSecondPart err), i2)
             | (Inr offsetPart, i2) \<Rightarrow>
                 let newOffset = unat (len AND 63) * 256 + unat offsetPart in
                 Option.bind (parseName_loop data newOffset [])
                   (\<lambda>(r, i3). case r of
                        Inl err \<Rightarrow> Some (Inl err, i3)
                      | Inr partName \<Rightarrow> Some (Inr (Join (nameParts @ [partName])), i3)))
          else if len = 0 then Some (Inr (Join nameParts), i1)
          else
            (case Reader_Read data i1 (unat len) of
               (Inl err, i2) \<Rightarrow> Some (Inl (FailedNameLabels err), i2)
             | (Inr labels, i2) \<Rightarrow> parseName_loop data i2 (nameParts @ [labels])))"

declare parseName_loop.simps [code]

definition parseName :: "byte list \<Rightarrow> nat \<Rightarrow> ((error + gostring) \<times> nat) option" where
  "parseName data offset = parseName_loop data offset []"

text \<open>\<open>readName\<close> parses at the current position of the reader.\<close>

definition readName :: "byte list \<Rightarrow> nat \<Rightarrow> ((error + gostring) \<times> nat) option" where
  "readName data i = parseName data i"

section \<open>Messages\<close>

definition Question_serialize :: "Question \<Rightarrow> byte list" where
  "Question_serialize q =
     serializeDomain (Question.Name q) @ PutUint16 (Question.Type q)
     @ PutUint16 (Question.Class q)"

text \<open>\<open>uint16(len(r.Data))\<close> keeps the low 16 bits of the length.\<close>

definition RR_serialize :: "RR \<Rightarrow> byte list" where
  "RR_serialize r =
     serializeDomain (RR.Name r) @ PutUint16 (RR.Type r) @ PutUint16 (RR.Class r)
     @ PutUint32 (TTL r) @ PutUint16 (of_nat (length (Data r))) @ Data r"

definition DNSMessage_serialize :: "DNSMessage \<Rightarrow> byte list" where
  "DNSMessage_serialize m =
     Header_serialize (Header m) @ concat (map Question_serialize (Questions m))
     @ concat (map RR_serialize (Answer m))"

text \<open>
  The two loops of \<open>parseDNSMessage\<close>. The first argument is the number of iterations
  left (\<open>QDCOUNT - i\<close>, \<open>ANCOUNT - i\<close>); the state is the reader position and
  \<open>msg\<close>. The result is \<open>msg\<close>, the error if the loop returned one, and the position.
\<close>

fun parseQuestions ::
  "byte list \<Rightarrow> nat \<Rightarrow> nat \<Rightarrow> DNSMessage \<Rightarrow> (DNSMessage \<times> error option \<times> nat) option" where
  "parseQuestions data 0 i msg = Some (msg, None, i)"
| "parseQuestions data (Suc n) i msg =
     Option.bind (readName data i) (\<lambda>(r, i1).
       case r of
         Inl err \<Rightarrow> Some (msg, Some (FailedQuestionName err), i1)
       | Inr name \<Rightarrow>
           (case Read_uint16 data i1 of
              (Inl err, i2) \<Rightarrow> Some (msg, Some (FailedQuestionType err), i2)
            | (Inr ty, i2) \<Rightarrow>
                (case Read_uint16 data i2 of
                   (Inl err, i3) \<Rightarrow> Some (msg, Some (FailedQuestionClass err), i3)
                 | (Inr cl, i3) \<Rightarrow>
                     parseQuestions data n i3
                       (msg\<lparr>Questions := Questions msg
                          @ [\<lparr>Question.Name = name, Type = ty, Class = cl\<rparr>]\<rparr>))))"

fun parseAnswers ::
  "byte list \<Rightarrow> nat \<Rightarrow> nat \<Rightarrow> DNSMessage \<Rightarrow> (DNSMessage \<times> error option \<times> nat) option" where
  "parseAnswers data 0 i msg = Some (msg, None, i)"
| "parseAnswers data (Suc n) i msg =
     Option.bind (readName data i) (\<lambda>(r, i1).
       case r of
         Inl err \<Rightarrow> Some (msg, Some (FailedRRName err), i1)
       | Inr name \<Rightarrow>
           (case Read_uint16 data i1 of
              (Inl err, i2) \<Rightarrow> Some (msg, Some (FailedRRType err), i2)
            | (Inr ty, i2) \<Rightarrow>
           (case Read_uint16 data i2 of
              (Inl err, i3) \<Rightarrow> Some (msg, Some (FailedRRClass err), i3)
            | (Inr cl, i3) \<Rightarrow>
           (case Read_uint32 data i3 of
              (Inl err, i4) \<Rightarrow> Some (msg, Some (FailedRRTTL err), i4)
            | (Inr ttl, i4) \<Rightarrow>
           (case Read_uint16 data i4 of
              (Inl err, i5) \<Rightarrow> Some (msg, Some (FailedRRDataLength err), i5)
            | (Inr len, i5) \<Rightarrow>
           (case Reader_Read data i5 (unat len) of
              (Inl err, i6) \<Rightarrow> Some (msg, Some (FailedRRData err), i6)
            | (Inr rdata, i6) \<Rightarrow>
                parseAnswers data n i6
                  (msg\<lparr>Answer := Answer msg
                     @ [\<lparr>RR.Name = name, Type = ty, Class = cl, TTL = ttl,
                         Length = len, Data = rdata\<rparr>]\<rparr>)))))))"

text \<open>
  \<open>parseDNSMessage\<close> returns \<open>msg\<close> as far as it was filled together with the error
  (\<open>None\<close> for \<open>nil\<close>). The outer \<open>option\<close> is \<open>None\<close> when a name never
  finishes parsing.
\<close>

definition parseDNSMessage :: "byte list \<Rightarrow> (DNSMessage \<times> error option) option" where
  "parseDNSMessage data =
     (case parseHeader data of
        Inl err \<Rightarrow> Some (zeroDNSMessage, Some err)
      | Inr hdr \<Rightarrow>
          Option.bind (parseQuestions data (unat (QDCOUNT hdr)) 12
                         (zeroDNSMessage\<lparr>Header := hdr\<rparr>))
            (\<lambda>(msg, err, i).
               case err of
                 Some e \<Rightarrow> Some (msg, Some e)
               | None \<Rightarrow>
                   Option.bind (parseAnswers data (unat (ANCOUNT (Header msg))) i msg)
                     (\<lambda>(msg, err, i). Some (msg, err))))"

section \<open>Building responses and requests\<close>

definition newRR :: "gostring \<Rightarrow> RR" where
  "newRR name = \<lparr>RR.Name = name, Type = 1, Class = 1, TTL = 60, Length = 4,
     Data = [8, 8, 8, 8]\<rparr>"

definition newQuestion :: "gostring \<Rightarrow> Question" where
  "newQuestion name = \<lparr>Question.Name = name, Type = 1, Class = 1\<rparr>"

definition generateResponse :: "DNSMessage \<Rightarrow> DNSMessage" where
  "generateResponse dnsRequest =
     (let responseRCODE = (if OPCODE (Header dnsRequest) = 0 then 0 else 4);
          a = map (\<lambda>reqQ. newRR (Question.Name reqQ)) (Questions dnsRequest);
          q = map (\<lambda>reqQ. newQuestion (Question.Name reqQ)) (Questions dnsRequest);
          h = \<lparr>ID = ID (Header dnsRequest), QR = 1, OPCODE = OPCODE (Header dnsRequest),
               AA = 0, TC = 0, RD = RD (Header dnsRequest), RA = RA (Header dnsRequest),
               Z = 0, RCODE = responseRCODE, QDCOUNT = of_nat (length q),
               ANCOUNT = of_nat (length a), NSCOUNT = 0, ARCOUNT = 0\<rparr>
      in \<lparr>Header = h, Questions = q, Answer = a\<rparr>)"

definition generateRequest :: "DNSMessage \<Rightarrow> Question \<Rightarrow> DNSMessage" where
  "generateRequest originalRequest singleQuestion =
     (let a = [];
          q = [singleQuestion];
          h = \<lparr>ID = ID (Header originalRequest), QR = 0,
               OPCODE = OPCODE (Header originalRequest), AA = 0, TC = 0,
               RD = RD (Header originalRequest), RA = RA (Header originalRequest),
               Z = 0, RCODE = 0, QDCOUNT = of_nat (length q),
               ANCOUNT = of_nat (length a), NSCOUNT = 0, ARCOUNT = 0\<rparr>
      in \<lparr>Header = h, Questions = q, Answer = a\<rparr>)"

section \<open>The server loop\<close>

text \<open>
  The connection to the resolver is a parameter. In forward mode \<open>main\<close> calls
  \<open>net.ResolveUDPAddr\<close> and \<open>net.DialUDP\<close> for every datagram and discards both
  errors; \<open>upstream\<close> is the \<open>conn\<close> that \<open>DialUDP\<close> returns. \<open>None\<close> is the nil
  connection that it returns with an error (for an address that does not resolve, such
  as \<open>"."\<close>, the default of the flag): \<open>conn.Write\<close> on it panics with a nil
  dereference. \<open>Some conn\<close> is an open connection, and \<open>conn k out\<close> is what the
  \<open>k\<close>-th \<open>ReadFromUDP\<close> of a request does after \<open>out\<close> was written: \<open>None\<close> when
  it never returns (the source sets no deadline), \<open>Some reply\<close> when it returns, where
  \<open>reply\<close> is the datagram received, or empty when the read returns an error, which
  the source ignores.

  The results of this section are options: \<open>None\<close> is a call without a result, one
  that never returns or in which the process dies.
\<close>

type_synonym conn = "nat \<Rightarrow> byte list \<Rightarrow> byte list option"

text \<open>
  The datagram is read into a fresh buffer of 512 zero bytes, and the source parses
  the whole buffer, not the bytes received (the count that \<open>ReadFromUDP\<close> returns is
  discarded).
\<close>

definition recvBuffer :: "byte list \<Rightarrow> byte list" where
  "recvBuffer reply = take 512 reply @ replicate (512 - length reply) 0"

text \<open>
  The loop over \<open>dnsRequest.Questions\<close> in forward mode; its state is
  \<open>response.Answer\<close>, and the datagrams written to the upstream are collected.
\<close>

fun forwardLoop ::
  "conn option \<Rightarrow> nat \<Rightarrow> DNSMessage \<Rightarrow> Question list \<Rightarrow> RR list
     \<Rightarrow> byte list list \<Rightarrow> (RR list \<times> byte list list) option" where
  "forwardLoop upstream k dnsRequest [] answer sent = Some (answer, sent)"
| "forwardLoop upstream k dnsRequest (reqQ # reqQs) answer sent =
     (let req = generateRequest dnsRequest reqQ;
          out = DNSMessage_serialize req
      in case upstream of
           None \<Rightarrow> None
         | Some conn \<Rightarrow>
             (case conn k out of
                None \<Rightarrow> None
              | Some reply \<Rightarrow>
                  let buffer = recvBuffer reply
                  in Option.bind (parseDNSMessage buffer) (\<lambda>(dnsResponse, err).
                       forwardLoop upstream (Suc k) dnsRequest reqQs
                         (if 0 < length (Answer dnsResponse)
                          then answer @ [Answer dnsResponse ! 0] else answer)
                         (sent @ [out]))))"

text \<open>
  The body of the loop of \<open>main\<close> from the parsed request on: the response and the
  datagrams sent upstream. \<open>resolverFlag\<close> is the value of the flag; in
  local-synthesis mode no connection is made and \<open>upstream\<close> is not used.
\<close>

definition respond ::
  "gostring \<Rightarrow> conn option \<Rightarrow> DNSMessage \<Rightarrow> (DNSMessage \<times> byte list list) option" where
  "respond resolverFlag upstream dnsRequest =
     (if resolverFlag = [] then Some (generateResponse dnsRequest, [])
      else
        Option.bind
          (forwardLoop upstream 0 dnsRequest (Questions dnsRequest) [] [])
          (\<lambda>(answer, sent).
             let response = (generateResponse dnsRequest)\<lparr>Answer := answer\<rparr>
             in Some (response\<lparr>Header := (Header response)
                        \<lparr>ANCOUNT := of_nat (length (Answer response))\<rparr>\<rparr>, sent)))"

text \<open>
  One iteration of the loop of \<open>main\<close> on the datagram received (\<open>buf[:size]\<close>, at most
  512 bytes): the error of \<open>parseDNSMessage\<close> is discarded and the response is built
  from the message it returned. The result is the datagram written to the client, or
  \<open>None\<close> when the iteration never gets there.
\<close>

definition handleDatagram ::
  "gostring \<Rightarrow> conn option \<Rightarrow> byte list \<Rightarrow> byte list option" where
  "handleDatagram resolverFlag upstream dgram =
     Option.bind (parseDNSMessage (take 512 dgram)) (\<lambda>(dnsRequest, err).
       Option.bind (respond resolverFlag upstream dnsRequest) (\<lambda>(response, sent).
         Some (DNSMessage_serialize response)))"

text \<open>The loop of \<open>main\<close> over the datagrams received: the responses written.\<close>

fun serve ::
  "gostring \<Rightarrow> conn option \<Rightarrow> byte list list \<Rightarrow> byte list list option" where
  "serve resolverFlag upstream [] = Some []"
| "serve resolverFlag upstream (dgram # dgrams) =
     Option.bind (handleDatagram resolverFlag upstream dgram) (\<lambda>response.
       Option.bind (serve resolverFlag upstream dgrams) (\<lambda>responses.
         Some (response # responses)))"

section \<open>Notions of the specification\<close>

subsection \<open>Well-formed messages\<close>

text \<open>
  The messages of the round-trip property, in the words of the specification: every
  label of a name has 1 to 63 bytes (the labels are the parts between dots), the flag
  fields of the header fit their widths, QDCOUNT and ANCOUNT are the numbers of
  questions and answers, and the \<open>Length\<close> of every record is the length of its
  data.
\<close>

definition validLabel :: "gostring \<Rightarrow> bool" where
  "validLabel label \<longleftrightarrow> 1 \<le> length label \<and> length label \<le> 63"

definition wellFormedName :: "gostring \<Rightarrow> bool" where
  "wellFormedName name \<longleftrightarrow> list_all validLabel (Split [] name)"

definition wellFormedHeader :: "Header \<Rightarrow> bool" where
  "wellFormedHeader h \<longleftrightarrow>
     QR h < 2 \<and> OPCODE h < 16 \<and> AA h < 2 \<and> TC h < 2 \<and> RD h < 2 \<and> RA h < 2
     \<and> Z h < 8 \<and> RCODE h < 16"

definition wellFormed :: "DNSMessage \<Rightarrow> bool" where
  "wellFormed m \<longleftrightarrow>
     wellFormedHeader (Header m)
     \<and> unat (QDCOUNT (Header m)) = length (Questions m)
     \<and> unat (ANCOUNT (Header m)) = length (Answer m)
     \<and> list_all (\<lambda>q. wellFormedName (Question.Name q)) (Questions m)
     \<and> list_all (\<lambda>r. wellFormedName (RR.Name r) \<and> unat (Length r) = length (Data r))
          (Answer m)"

section \<open>Concrete inputs\<close>

text \<open>A header with every flag field in range and \<open>Z = 5\<close>.\<close>

definition header_Z5 :: Header where
  "header_Z5 = \<lparr>ID = 0x1234, QR = 1, OPCODE = 2, AA = 1, TC = 0, RD = 1, RA = 1, Z = 5,
     RCODE = 3, QDCOUNT = 1, ANCOUNT = 2, NSCOUNT = 0, ARCOUNT = 0xFFFF\<rparr>"


text \<open>
  A query whose question name is a compression pointer to its own offset 12:
  \<open>12 34 01 00 00 01 00 00 00 00 00 00 C0 0C 00 01 00 01\<close>.
\<close>

definition selfPointerQuery :: "byte list" where
  "selfPointerQuery = [0x12, 0x34, 0x01, 0x00, 0, 1, 0, 0, 0, 0, 0, 0,
     0xC0, 0x0C, 0, 1, 0, 1]"

text \<open>
  A query whose question name at offset 12 is a pointer to offset 14, where a pointer
  back to offset 12 lies.
\<close>

definition pointerCycleQuery :: "byte list" where
  "pointerCycleQuery = [0x12, 0x34, 0x01, 0x00, 0, 1, 0, 0, 0, 0, 0, 0,
     0xC0, 0x0E, 0xC0, 0x0C, 0, 1, 0, 1]"

text \<open>
  A reply with the question \<open>a\<close> (type 1, class 1) at offset 12 and one answer at
  offset 19 whose name is the pointer \<open>C0 0C\<close> to that question name, followed by
  type 1, class 1, TTL 60 and the four data bytes \<open>08 08 08 08\<close>.
\<close>

definition compressedReply :: "byte list" where
  "compressedReply = [0x12, 0x34, 0x81, 0x00, 0, 1, 0, 1, 0, 0, 0, 0,
     1, 97, 0, 0, 1, 0, 1,
     0xC0, 0x0C, 0, 1, 0, 1, 0, 0, 0, 60, 0, 4, 8, 8, 8, 8]"

text \<open>
  A message with one answer (name \<open>a\<close>) that declares four data bytes, cut after the
  first of them.
\<close>

definition shortDataReply :: "byte list" where
  "shortDataReply = [0x12, 0x34, 0x81, 0x00, 0, 0, 0, 1, 0, 0, 0, 0,
     1, 97, 0, 0, 1, 0, 1, 0, 0, 0, 60, 0, 4, 8]"

text \<open>A message whose only answer has no data (\<open>Length = 0\<close>, \<open>Data\<close> empty).\<close>

definition emptyDataMessage :: DNSMessage where
  "emptyDataMessage =
     \<lparr>Header = \<lparr>ID = 0x1234, QR = 1, OPCODE = 0, AA = 0, TC = 0, RD = 1, RA = 0, Z = 0,
                 RCODE = 0, QDCOUNT = 0, ANCOUNT = 1, NSCOUNT = 0, ARCOUNT = 0\<rparr>,
      Questions = [],
      Answer = [\<lparr>RR.Name = [97], Type = 16, Class = 1, TTL = 60, Length = 0,
                 Data = []\<rparr>]\<rparr>"

text \<open>
  The query of the local-synthesis scenario: ID \<open>0x1234\<close>, OPCODE 0, RD = 1, one
  question \<open>codecrafters.io\<close> of type 1 and class 1; and the message it decodes to.
\<close>

definition scenarioQuery :: "byte list" where
  "scenarioQuery = [0x12, 0x34, 0x01, 0x00, 0, 1, 0, 0, 0, 0, 0, 0,
     12, 99, 111, 100, 101, 99, 114, 97, 102, 116, 101, 114, 115, 2, 105, 111, 0,
     0, 1, 0, 1]"

definition scenarioRequest :: DNSMessage where
  "scenarioRequest =
     \<lparr>Header = \<lparr>ID = 0x1234, QR = 0, OPCODE = 0, AA = 0, TC = 0, RD = 1, RA = 0, Z = 0,
                 RCODE = 0, QDCOUNT = 1, ANCOUNT = 0, NSCOUNT = 0, ARCOUNT = 0\<rparr>,
      Questions = [\<lparr>Question.Name = [99, 111, 100, 101, 99, 114, 97, 102, 116, 101, 114, 115, 46, 105, 111],
                     Type = 1, Class = 1\<rparr>],
      Answer = []\<rparr>"

text \<open>
  A query with OPCODE 1 and one question \<open>codecrafters.io\<close> of type 28 and class 1;
  and the message it decodes to.
\<close>

definition opcode1Query :: "byte list" where
  "opcode1Query = [0x12, 0x34, 0x09, 0x00, 0, 1, 0, 0, 0, 0, 0, 0,
     12, 99, 111, 100, 101, 99, 114, 97, 102, 116, 101, 114, 115, 2, 105, 111, 0,
     0, 28, 0, 1]"

definition opcode1Request :: DNSMessage where
  "opcode1Request =
     \<lparr>Header = \<lparr>ID = 0x1234, QR = 0, OPCODE = 1, AA = 0, TC = 0, RD = 1, RA = 0, Z = 0,
                 RCODE = 0, QDCOUNT = 1, ANCOUNT = 0, NSCOUNT = 0, ARCOUNT = 0\<rparr>,
      Questions = [\<lparr>Question.Name = [99, 111, 100, 101, 99, 114, 97, 102, 116, 101, 114, 115, 46, 105, 111],
                     Type = 28, Class = 1\<rparr>],
      Answer = []\<rparr>"

text \<open>
  A record with 65536 data bytes, and a record whose \<open>Length\<close> field (9) is not the
  length of its data (4).
\<close>

definition longDataRR :: RR where
  "longDataRR = \<lparr>RR.Name = [97], Type = 16, Class = 1, TTL = 60, Length = 0,
     Data = replicate 65536 0\<rparr>"

definition lengthMismatchRR :: RR where
  "lengthMismatchRR = \<lparr>RR.Name = [97], Type = 1, Class = 1, TTL = 60, Length = 9,
     Data = [8, 8, 8, 8]\<rparr>"

text \<open>
  A query that announces two questions and holds one (\<open>a\<close>, type 1, class 1); and
  the message that \<open>parseDNSMessage\<close> returns for it, with an error.
\<close>

definition truncatedQuery :: "byte list" where
  "truncatedQuery = [0x12, 0x34, 0x01, 0x00, 0, 2, 0, 0, 0, 0, 0, 0,
     1, 97, 0, 0, 1, 0, 1]"

definition truncatedRequest :: DNSMessage where
  "truncatedRequest =
     \<lparr>Header = \<lparr>ID = 0x1234, QR = 0, OPCODE = 0, AA = 0, TC = 0, RD = 1, RA = 0, Z = 0,
                 RCODE = 0, QDCOUNT = 2, ANCOUNT = 0, NSCOUNT = 0, ARCOUNT = 0\<rparr>,
      Questions = [\<lparr>Question.Name = [97], Type = 1, Class = 1\<rparr>],
      Answer = []\<rparr>"

text \<open>
  A query with two questions (\<open>a\<close> of type 28, \<open>b\<close> of type 1) and the message
  it decodes to; an open connection on which the first read receives a reply with two
  answer records and every later read returns with nothing; a resolver flag
  \<open>8.8.8.8:53\<close>; and the response of forward mode.
\<close>

definition twoQuestionQuery :: "byte list" where
  "twoQuestionQuery = [0x12, 0x34, 0x01, 0x00, 0, 2, 0, 0, 0, 0, 0, 0,
     1, 97, 0, 0, 28, 0, 1,
     1, 98, 0, 0, 1, 0, 1]"

definition twoQuestionRequest :: DNSMessage where
  "twoQuestionRequest =
     \<lparr>Header = \<lparr>ID = 0x1234, QR = 0, OPCODE = 0, AA = 0, TC = 0, RD = 1, RA = 0, Z = 0,
                 RCODE = 0, QDCOUNT = 2, ANCOUNT = 0, NSCOUNT = 0, ARCOUNT = 0\<rparr>,
      Questions = [\<lparr>Question.Name = [97], Type = 28, Class = 1\<rparr>,
                   \<lparr>Question.Name = [98], Type = 1, Class = 1\<rparr>],
      Answer = []\<rparr>"

definition firstOnlyUpstream :: "conn option" where
  "firstOnlyUpstream =
     Some (\<lambda>k out.
       if k = 0 then
         Some [0x12, 0x34, 0x81, 0x80, 0, 1, 0, 2, 0, 0, 0, 0,
               1, 97, 0, 0, 28, 0, 1,
               1, 97, 0, 0, 28, 0, 1, 0, 0, 0, 60, 0, 4, 1, 2, 3, 4,
               1, 97, 0, 0, 28, 0, 1, 0, 0, 0, 60, 0, 4, 5, 6, 7, 8]
       else Some [])"

definition resolver8888 :: gostring where
  "resolver8888 = [56, 46, 56, 46, 56, 46, 56, 58, 53, 51]"

definition firstOnlyResponse :: DNSMessage where
  "firstOnlyResponse =
     \<lparr>Header = \<lparr>ID = 0x1234, QR = 1, OPCODE = 0, AA = 0, TC = 0, RD = 1, RA = 0, Z = 0,
                 RCODE = 0, QDCOUNT = 2, ANCOUNT = 1, NSCOUNT = 0, ARCOUNT = 0\<rparr>,
      Questions = [\<lparr>Question.Name = [97], Type = 1, Class = 1\<rparr>,
                   \<lparr>Question.Name = [98], Type = 1, Class = 1\<rparr>],
      Answer = [\<lparr>RR.Name = [97], Type = 28, Class = 1, TTL = 60, Length = 4,
                 Data = [1, 2, 3, 4]\<rparr>]\<rparr>"

text \<open>
  An upstream reply of 12 bytes: a header with ANCOUNT 1 and no record after it
  (\<open>12 34 81 80 00 00 00 01 00 00 00 00\<close>); and an open connection on which every
  read receives it.
\<close>

definition headerOnlyReply :: "byte list" where
  "headerOnlyReply = [0x12, 0x34, 0x81, 0x80, 0, 0, 0, 1, 0, 0, 0, 0]"

definition headerOnlyUpstream :: "conn option" where
  "headerOnlyUpstream = Some (\<lambda>k out. Some headerOnlyReply)"

section \<open>Big-endian integers and the bits of the header\<close>

lemma Uint16_pair: "Uint16 [a, b] = ucast b OR push_bit 8 (ucast a)"
  by (simp add: Uint16_def)

lemma Uint16_PutUint16: "Uint16 (PutUint16 v) = v"
  unfolding Uint16_def PutUint16_def
  apply simp
  apply (rule bit_word_eqI)
  apply (auto simp add: bit_simps)
  done

lemma Uint32_PutUint32: "Uint32 (PutUint32 v) = v"
  unfolding Uint32_def PutUint32_def
  apply simp
  apply (rule bit_word_eqI)
  apply (auto simp add: bit_simps)
  apply (case_tac "n < 24")
   apply simp_all
  done

lemma length_PutUint16: "length (PutUint16 v) = 2"
  by (simp add: PutUint16_def)

lemma length_PutUint32: "length (PutUint32 v) = 4"
  by (simp add: PutUint32_def)

lemma byte_bits_below: "(x::byte) < 2 ^ k \<Longrightarrow> bit x n \<Longrightarrow> n < k"
  by (metis less_mask_eq take_bit_eq_mask bit_take_bit_iff)

lemma bits_lt2: "(x::byte) < 2 \<Longrightarrow> bit x n \<Longrightarrow> n = 0"
  using byte_bits_below[of x 1 n] by simp

lemma bits_lt8: "(x::byte) < 8 \<Longrightarrow> bit x n \<Longrightarrow> n < 3"
  using byte_bits_below[of x 3 n] by simp

lemma bits_lt16: "(x::byte) < 16 \<Longrightarrow> bit x n \<Longrightarrow> n < 4"
  using byte_bits_below[of x 4 n] by simp

lemma bit_15_iff:
  "bit (15::'a::semiring_bit_operations) n \<longleftrightarrow> n < 4 \<and> possible_bit TYPE('a) n"
proof -
  have h: "(15::'a) = mask 4" by (simp add: mask_numeral)
  show ?thesis by (subst h, simp only: bit_mask_iff) auto
qed

lemma bit_7_iff:
  "bit (7::'a::semiring_bit_operations) n \<longleftrightarrow> n < 3 \<and> possible_bit TYPE('a) n"
proof -
  have h: "(7::'a) = mask 3" by (simp add: mask_numeral)
  show ?thesis by (subst h, simp only: bit_mask_iff) auto
qed

lemma bit_times_2: "bit (a * 2 :: byte) n \<longleftrightarrow> 0 < n \<and> n < 8 \<and> bit a (n - 1)"
  using bit_double_iff[of a n] by (auto simp add: mult.commute possible_bit_word)

lemmas hdr_bits = bit_simps bit_15_iff bit_7_iff bit_times_2

text \<open>The two flag bytes that \<open>Header.serialize\<close> packs, read back field by field.\<close>

lemma flags_unpack:
  fixes qr opcode aa tc rd ra z rcode :: byte
  assumes "qr < 2" "opcode < 16" "aa < 2" "tc < 2" "rd < 2" "ra < 2" "z < 8" "rcode < 16"
  defines "flags \<equiv> Uint16 [push_bit 7 qr OR push_bit 3 opcode OR push_bit 2 aa
                              OR push_bit 1 tc OR rd,
                            push_bit 7 ra OR push_bit 4 z OR rcode]"
  shows "ucast (drop_bit 15 flags AND 1) = qr"
    and "ucast (drop_bit 11 flags AND 15) = opcode"
    and "ucast (drop_bit 10 flags AND 1) = aa"
    and "ucast (drop_bit 9 flags AND 1) = tc"
    and "ucast (drop_bit 8 flags AND 1) = rd"
    and "ucast (drop_bit 7 flags AND 1) = ra"
    and "ucast (drop_bit 4 flags AND 7) = z"
    and "ucast (flags AND 15) = rcode"
  unfolding flags_def
  using assms(1-8)
  apply (simp_all add: Uint16_pair)
  apply (rule bit_word_eqI; auto simp add: hdr_bits dest: bits_lt2 bits_lt8 bits_lt16)+
  done

lemma length_Header_serialize: "length (Header_serialize h) = 12"
  by (simp add: Header_serialize_def PutUint16_def)

section \<open>Reading within the buffer\<close>

lemma Read_byte_in: "i < length s \<Longrightarrow> Read_byte s i = (Inr (s ! i), Suc i)"
  by (simp add: Read_byte_def ReadFull_def take_Suc_conv_app_nth)

lemma ReadFull_in:
  "0 < n \<Longrightarrow> ReadFull (pre @ bs @ post) (length pre) n = (Inr bs, length pre + n)"
  if "length bs = n"
  using that by (simp add: ReadFull_def)

lemma Read_byte_at:
  "Read_byte (pre @ b # post) (length pre) = (Inr b, Suc (length pre))"
  by (simp add: Read_byte_in)

lemma Read_uint16_in:
  "Read_uint16 (pre @ PutUint16 v @ post) (length pre) = (Inr v, length pre + 2)"
proof -
  have "ReadFull (pre @ PutUint16 v @ post) (length pre) 2 = (Inr (PutUint16 v), length pre + 2)"
    by (rule ReadFull_in) (simp_all add: PutUint16_def)
  then show ?thesis by (simp add: Read_uint16_def Uint16_PutUint16)
qed

lemma Read_uint32_in:
  "Read_uint32 (pre @ PutUint32 v @ post) (length pre) = (Inr v, length pre + 4)"
proof -
  have "ReadFull (pre @ PutUint32 v @ post) (length pre) 4 = (Inr (PutUint32 v), length pre + 4)"
    by (rule ReadFull_in) (simp_all add: PutUint32_def)
  then show ?thesis by (simp add: Read_uint32_def Uint32_PutUint32)
qed

lemma Reader_Read_in:
  "bs \<noteq> [] \<or> post \<noteq> [] \<Longrightarrow>
   Reader_Read (pre @ bs @ post) (length pre) (length bs) = (Inr bs, length pre + length bs)"
  by (auto simp add: Reader_Read_def)

section \<open>The header codec\<close>

text \<open>
  \<open>parseHeader\<close> reads the first 12 bytes only, so the header is read back
  whatever follows it.
\<close>

lemma parseHeader_Header_serialize_append:
  assumes "QR h < 2" "OPCODE h < 16" "AA h < 2" "TC h < 2" "RD h < 2" "RA h < 2"
    and "Z h < 8" "RCODE h < 16"
  shows "parseHeader (Header_serialize h @ rest) = Inr h"
proof -
  have f: "take 2 (drop 2 (Header_serialize h @ rest)) =
      [push_bit 7 (QR h) OR push_bit 3 (OPCODE h) OR push_bit 2 (AA h)
         OR push_bit 1 (TC h) OR RD h,
       push_bit 7 (RA h) OR push_bit 4 (Z h) OR RCODE h]"
    by (simp add: Header_serialize_def PutUint16_def)
  have c: "take 2 (Header_serialize h @ rest) = PutUint16 (ID h)"
      "take 2 (drop 4 (Header_serialize h @ rest)) = PutUint16 (QDCOUNT h)"
      "take 2 (drop 6 (Header_serialize h @ rest)) = PutUint16 (ANCOUNT h)"
      "take 2 (drop 8 (Header_serialize h @ rest)) = PutUint16 (NSCOUNT h)"
      "take 2 (drop 10 (Header_serialize h @ rest)) = PutUint16 (ARCOUNT h)"
    by (simp_all add: Header_serialize_def PutUint16_def)
  show ?thesis
    unfolding parseHeader_def Let_def f c Uint16_PutUint16
    using flags_unpack[OF assms] length_Header_serialize[of h] by simp
qed

text \<open>
  C8. \<open>Header.serialize\<close> followed by \<open>parseHeader\<close> gives the header back: for
  every header whose flag fields fit their widths (QR, AA, TC, RD, RA one bit, Z three
  bits, OPCODE and RCODE four bits), parsing the 12 bytes that \<open>serialize\<close> writes
  succeeds and returns every field unchanged, whatever the value of Z.
\<close>

theorem Header_serialize_parseHeader:
  assumes "QR h < 2" "OPCODE h < 16" "AA h < 2" "TC h < 2" "RD h < 2" "RA h < 2"
    and "Z h < 8" "RCODE h < 16"
  shows "parseHeader (Header_serialize h) = Inr h"
  using parseHeader_Header_serialize_append[OF assms, of "[]"] by simp

theorem Header_serialize_parseHeader_witness:
  "QR header_Z5 < 2 \<and> OPCODE header_Z5 < 16 \<and> AA header_Z5 < 2 \<and> TC header_Z5 < 2
   \<and> RD header_Z5 < 2 \<and> RA header_Z5 < 2 \<and> Z header_Z5 < 8 \<and> RCODE header_Z5 < 16
   \<and> Z header_Z5 = 5 \<and> parseHeader (Header_serialize header_Z5) = Inr header_Z5"
  using Header_serialize_parseHeader[of header_Z5] by (simp add: header_Z5_def)

section \<open>Names without compression\<close>

text \<open>\<open>strings.Join\<close> undoes \<open>strings.Split\<close>.\<close>

lemma Join_Cons: "ps \<noteq> [] \<Longrightarrow> Join (p # ps) = p @ [46] @ Join ps"
  by (cases ps) simp_all

lemma Split_not_Nil: "Split acc s \<noteq> []"
  by (induction s arbitrary: acc) simp_all

lemma Join_Split: "Join (Split acc s) = acc @ s"
  by (induction s arbitrary: acc) (simp_all add: Join_Cons Split_not_Nil)

lemma serializeLabels_eq:
  "serializeLabels buffer labels =
     buffer @ concat (map (\<lambda>label. of_nat (length label) # label) labels)"
  by (induction labels arbitrary: buffer) simp_all

text \<open>
  A length byte of 1 to 63 is neither a pointer nor the end of the name, and the loop
  of \<open>parseName\<close> reads the labels that \<open>serializeDomain\<close> wrote, up to the zero
  byte, wherever the name lies in the buffer.
\<close>

lemma label_length_byte:
  assumes "validLabel label"
  shows "unat (of_nat (length label) :: byte) = length label"
    and "\<not> 192 \<le> (of_nat (length label) :: byte)"
    and "(of_nat (length label) :: byte) \<noteq> 0"
proof -
  show u: "unat (of_nat (length label) :: byte) = length label"
    using assms by (simp add: validLabel_def unat_of_nat)
  show "\<not> 192 \<le> (of_nat (length label) :: byte)"
    using assms u by (simp add: word_le_nat_alt validLabel_def)
  show "(of_nat (length label) :: byte) \<noteq> 0"
    using assms u by (auto simp add: validLabel_def)
qed

lemma parseName_loop_labels:
  assumes "list_all validLabel labels"
  shows "parseName_loop
           (pre @ concat (map (\<lambda>label. of_nat (length label) # label) labels) @ 0 # post)
           (length pre) nameParts =
         Some (Inr (Join (nameParts @ labels)),
               length pre
               + length (concat (map (\<lambda>label. of_nat (length label) # label) labels)) + 1)"
  using assms
proof (induction labels arbitrary: pre nameParts)
  case Nil
  show ?case
    by (subst parseName_loop.simps) (simp add: Read_byte_at)
next
  case (Cons label labels)
  let ?b = "of_nat (length label) :: byte"
  let ?rest = "concat (map (\<lambda>label. of_nat (length label) # label) labels) @ 0 # post"
  have v: "validLabel label" and vs: "list_all validLabel labels"
    using Cons.prems by simp_all
  have d: "pre @ concat (map (\<lambda>label. of_nat (length label) # label) (label # labels)) @ 0 # post
      = pre @ ?b # (label @ ?rest)"
    by simp
  have r1: "Read_byte (pre @ ?b # (label @ ?rest)) (length pre) = (Inr ?b, Suc (length pre))"
    by (rule Read_byte_at)
  have r2: "Reader_Read ((pre @ [?b]) @ label @ ?rest) (length (pre @ [?b])) (length label)
      = (Inr label, length (pre @ [?b]) + length label)"
    by (rule Reader_Read_in) simp
  have ih: "parseName_loop ((pre @ [?b] @ label) @ ?rest) (length (pre @ [?b] @ label))
      (nameParts @ [label]) =
      Some (Inr (Join ((nameParts @ [label]) @ labels)),
            length (pre @ [?b] @ label)
            + length (concat (map (\<lambda>label. of_nat (length label) # label) labels)) + 1)"
    by (rule Cons.IH[OF vs])
  show ?case
    unfolding d
    apply (subst parseName_loop.simps)
    using r2 ih
    apply (simp add: r1 label_length_byte[OF v])
    done
qed

lemma readName_serializeDomain:
  assumes "wellFormedName name"
  shows "readName (pre @ serializeDomain name @ post) (length pre) =
           Some (Inr name, length pre + length (serializeDomain name))"
proof -
  have "parseName_loop
           (pre @ concat (map (\<lambda>label. of_nat (length label) # label) (Split [] name)) @ 0 # post)
           (length pre) [] =
         Some (Inr (Join ([] @ Split [] name)),
               length pre
               + length (concat (map (\<lambda>label. of_nat (length label) # label) (Split [] name))) + 1)"
    using assms unfolding wellFormedName_def by (rule parseName_loop_labels)
  then show ?thesis
    by (simp add: readName_def parseName_def serializeDomain_def serializeLabels_eq Join_Split)
qed

section \<open>Compression pointers\<close>

text \<open>
  No call of the parsing loop at offset 12 of \<open>selfPointerQuery\<close> returns: it reads
  the pointer and calls itself at offset 12 again.
\<close>

lemma parseName_loop_selfPointerQuery:
  assumes "parseName_loop data i nameParts = Some y"
  shows "\<not> (data = selfPointerQuery \<and> i = 12)"
proof (rule parseName_loop.raw_induct
    [where P = "\<lambda>data i nameParts y. \<not> (data = selfPointerQuery \<and> i = 12)", OF _ assms],
    goal_cases)
  case (1 f data i nameParts y)
  show ?case
  proof
    assume a: "data = selfPointerQuery \<and> i = 12"
    have l: "length selfPointerQuery = 18"
      by (simp add: selfPointerQuery_def)
    have r1: "Read_byte selfPointerQuery 12 = (Inr 0xC0, 13)"
      by (simp add: Read_byte_in l) (simp add: selfPointerQuery_def)
    have r2: "Read_byte selfPointerQuery 13 = (Inr 0x0C, 14)"
      by (simp add: Read_byte_in l) (simp add: selfPointerQuery_def)
    from 1(2) a r1 r2 obtain z where "f selfPointerQuery 12 [] = Some z"
      by (auto simp add: Let_def bind_eq_Some_conv split: if_splits)
    with 1(1) show False by blast
  qed
qed

lemma parseName_selfPointerQuery: "parseName selfPointerQuery 12 = None"
  using parseName_loop_selfPointerQuery[of selfPointerQuery 12 "[]"]
  by (cases "parseName selfPointerQuery 12") (auto simp: parseName_def)

text \<open>The same for the two pointers of \<open>pointerCycleQuery\<close>, which point to each other.\<close>

lemma parseName_loop_pointerCycleQuery:
  assumes "parseName_loop data i nameParts = Some y"
  shows "\<not> (data = pointerCycleQuery \<and> (i = 12 \<or> i = 14))"
proof (rule parseName_loop.raw_induct
    [where P = "\<lambda>data i nameParts y. \<not> (data = pointerCycleQuery \<and> (i = 12 \<or> i = 14))",
     OF _ assms], goal_cases)
  case (1 f data i nameParts y)
  note IH = 1(1) and step = 1(2)
  have l: "length pointerCycleQuery = 20"
    by (simp add: pointerCycleQuery_def)
  have r: "Read_byte pointerCycleQuery 12 = (Inr 0xC0, 13)"
    "Read_byte pointerCycleQuery 13 = (Inr 0x0E, 14)"
    "Read_byte pointerCycleQuery 14 = (Inr 0xC0, 15)"
    "Read_byte pointerCycleQuery 15 = (Inr 0x0C, 16)"
    by (simp_all add: Read_byte_in l) (simp_all add: pointerCycleQuery_def)
  show ?case
  proof
    assume a: "data = pointerCycleQuery \<and> (i = 12 \<or> i = 14)"
    then consider "i = 12" | "i = 14" by blast
    then show False
    proof cases
      case 1
      with step a r obtain z where "f pointerCycleQuery 14 [] = Some z"
        by (auto simp add: Let_def bind_eq_Some_conv split: if_splits)
      with IH show False by blast
    next
      case 2
      with step a r obtain z where "f pointerCycleQuery 12 [] = Some z"
        by (auto simp add: Let_def bind_eq_Some_conv split: if_splits)
      with IH show False by blast
    qed
  qed
qed

lemma parseName_pointerCycleQuery: "parseName pointerCycleQuery 12 = None"
  using parseName_loop_pointerCycleQuery[of pointerCycleQuery 12 "[]"]
  by (cases "parseName pointerCycleQuery 12") (auto simp: parseName_def)

text \<open>
  C1 (the code does not do this). On the query \<open>selfPointerQuery\<close>, whose question
  name at offset 12 is a pointer to offset 12, \<open>parseName\<close> does not fail with an
  error: it never returns, and so neither \<open>parseDNSMessage\<close> nor the iteration of
  the server loop that received the datagram returns. Nor does \<open>parseName\<close> return
  on \<open>pointerCycleQuery\<close>, where two pointers form the cycle.
\<close>

theorem parseName_self_pointer_never_returns:
  "parseName selfPointerQuery 12 = None
   \<and> parseDNSMessage selfPointerQuery = None
   \<and> handleDatagram [] upstream selfPointerQuery = None
   \<and> parseName pointerCycleQuery 12 = None"
proof -
  have h: "parseHeader selfPointerQuery =
      Inr \<lparr>ID = 0x1234, QR = 0, OPCODE = 0, AA = 0, TC = 0, RD = 1, RA = 0, Z = 0,
           RCODE = 0, QDCOUNT = 1, ANCOUNT = 0, NSCOUNT = 0, ARCOUNT = 0\<rparr>"
    by (simp add: parseHeader_def selfPointerQuery_def Uint16_def)
  have p: "parseDNSMessage selfPointerQuery = None"
    by (simp add: parseDNSMessage_def h readName_def parseName_selfPointerQuery)
  have t: "take 512 selfPointerQuery = selfPointerQuery"
    by (simp add: selfPointerQuery_def)
  show ?thesis
    by (simp add: parseName_selfPointerQuery parseName_pointerCycleQuery p
        handleDatagram_def t)
qed

text \<open>
  C7 (the code does not do this). In \<open>compressedReply\<close> the answer name is the
  two-byte pointer at offset 19. \<open>readName\<close> there returns the name \<open>a\<close> and leaves
  the reader at offset 15, the end of the name pointed to, not at offset 21; the
  answer's type, class, TTL and data are then read from offset 15 on, so the record
  comes out with TTL \<open>0xC00C0001\<close> and one data byte instead of TTL 60 and the four
  bytes \<open>08 08 08 08\<close>.
\<close>

theorem readName_pointer_resumes_after_target:
  "readName compressedReply 19 = Some (Inr [97], 15)
   \<and> parseDNSMessage compressedReply =
       Some (\<lparr>Header = \<lparr>ID = 0x1234, QR = 1, OPCODE = 0, AA = 0, TC = 0, RD = 1,
                         RA = 0, Z = 0, RCODE = 0, QDCOUNT = 1, ANCOUNT = 1,
                         NSCOUNT = 0, ARCOUNT = 0\<rparr>,
              Questions = [\<lparr>Question.Name = [97], Type = 1, Class = 1\<rparr>],
              Answer = [\<lparr>RR.Name = [97], Type = 1, Class = 1, TTL = 0xC00C0001,
                         Length = 1, Data = [0]\<rparr>]\<rparr>, None)"
  by code_simp

section \<open>What a decoded request holds\<close>

text \<open>
  Each loop of \<open>parseDNSMessage\<close> appends at most one entry per iteration and
  changes nothing else, so a decoded message, complete or not, has at most
  \<open>QDCOUNT\<close> questions and \<open>ANCOUNT\<close> answers.
\<close>

lemma parseQuestions_bound:
  "parseQuestions data n i msg = Some (msg', err, j) \<Longrightarrow>
     length (Questions msg') \<le> length (Questions msg) + n
     \<and> Header msg' = Header msg \<and> Answer msg' = Answer msg"
proof (induction n arbitrary: i msg)
  case 0
  then show ?case by simp
next
  case (Suc n)
  from Suc.prems show ?case
    apply (simp add: bind_eq_Some_conv)
    apply (elim exE conjE)
    apply (simp split: sum.split_asm prod.split_asm)
    apply (auto dest!: Suc.IH)
    done
qed

lemma parseAnswers_bound:
  "parseAnswers data n i msg = Some (msg', err, j) \<Longrightarrow>
     length (Answer msg') \<le> length (Answer msg) + n
     \<and> Header msg' = Header msg \<and> Questions msg' = Questions msg"
proof (induction n arbitrary: i msg)
  case 0
  then show ?case by simp
next
  case (Suc n)
  from Suc.prems show ?case
    apply (simp add: bind_eq_Some_conv)
    apply (elim exE conjE)
    apply (simp split: sum.split_asm prod.split_asm)
    apply (auto dest!: Suc.IH)
    done
qed

lemma parseDNSMessage_counts:
  assumes "parseDNSMessage data = Some (msg, err)"
  shows "length (Questions msg) \<le> unat (QDCOUNT (Header msg))
         \<and> length (Answer msg) \<le> unat (ANCOUNT (Header msg))"
proof (cases "parseHeader data")
  case (Inl e)
  with assms show ?thesis
    by (auto simp add: parseDNSMessage_def zeroDNSMessage_def)
next
  case (Inr hdr)
  with assms obtain m1 e1 i1 where
    q: "parseQuestions data (unat (QDCOUNT hdr)) 12 (zeroDNSMessage\<lparr>Header := hdr\<rparr>) = Some (m1, e1, i1)"
    and r: "(case e1 of Some e \<Rightarrow> Some (m1, Some e)
             | None \<Rightarrow> Option.bind (parseAnswers data (unat (ANCOUNT (Header m1))) i1 m1)
                      (\<lambda>(msg, err, i). Some (msg, err))) = Some (msg, err)"
    by (auto simp add: parseDNSMessage_def bind_eq_Some_conv)
  from parseQuestions_bound[OF q]
  have b1: "length (Questions m1) \<le> unat (QDCOUNT hdr)" "Header m1 = hdr" "Answer m1 = []"
    by (simp_all add: zeroDNSMessage_def)
  show ?thesis
  proof (cases e1)
    case (Some e)
    with r b1 show ?thesis by auto
  next
    case None
    with r obtain j where a: "parseAnswers data (unat (ANCOUNT (Header m1))) i1 m1 = Some (msg, err, j)"
      by (auto simp add: bind_eq_Some_conv)
    from parseAnswers_bound[OF a] b1 show ?thesis by simp
  qed
qed

lemma unat_uint16_bound: "unat (w :: uint16) < 65536"
  using unsigned_less[of w, where 'a = nat] by simp

lemma unat_of_nat_uint16: "n < 65536 \<Longrightarrow> unat (of_nat n :: uint16) = n"
  by (simp add: unat_of_nat)

lemma parseDNSMessage_Questions_length:
  assumes "parseDNSMessage data = Some (msg, err)"
  shows "length (Questions msg) < 65536"
  using parseDNSMessage_counts[OF assms] unat_uint16_bound[of "QDCOUNT (Header msg)"]
  by simp

section \<open>Decoding an encoded message\<close>

lemma Question_eta:
  "\<lparr>Question.Name = Question.Name q, Type = Question.Type q, Class = Question.Class q\<rparr> = q"
  by (cases q) simp

lemma RR_eta:
  "\<lparr>RR.Name = RR.Name r, Type = RR.Type r, Class = RR.Class r, TTL = TTL r,
    Length = Length r, Data = Data r\<rparr> = r"
  by (cases r) simp

text \<open>
  The question loop reads back the questions that \<open>serialize\<close> wrote, wherever
  they lie in the buffer.
\<close>

lemma parseQuestions_serialized:
  assumes "list_all (\<lambda>q. wellFormedName (Question.Name q)) qs"
  shows "parseQuestions (pre @ concat (map Question_serialize qs) @ post) (length qs)
           (length pre) msg =
         Some (msg\<lparr>Questions := Questions msg @ qs\<rparr>, None,
               length pre + length (concat (map Question_serialize qs)))"
  using assms
proof (induction qs arbitrary: pre msg)
  case Nil
  show ?case by simp
next
  case (Cons q qs)
  let ?n = "serializeDomain (Question.Name q)"
  let ?t = "PutUint16 (Question.Type q)"
  let ?c = "PutUint16 (Question.Class q)"
  let ?rest = "concat (map Question_serialize qs) @ post"
  define data where "data = pre @ concat (map Question_serialize (q # qs)) @ post"
  define i1 where "i1 = length pre + length ?n"
  define i2 where "i2 = i1 + 2"
  define i3 where "i3 = i2 + 2"
  have v: "wellFormedName (Question.Name q)"
    and vs: "list_all (\<lambda>q. wellFormedName (Question.Name q)) qs"
    using Cons.prems by simp_all
  have d1: "data = pre @ ?n @ (?t @ ?c @ ?rest)"
    and d2: "data = (pre @ ?n) @ ?t @ (?c @ ?rest)"
    and d3: "data = (pre @ ?n @ ?t) @ ?c @ ?rest"
    and d4: "data = (pre @ ?n @ ?t @ ?c) @ concat (map Question_serialize qs) @ post"
    by (simp_all add: data_def Question_serialize_def)
  have r1: "readName data (length pre) = Some (Inr (Question.Name q), i1)"
    unfolding d1 i1_def by (rule readName_serializeDomain[OF v])
  have r2: "Read_uint16 data i1 = (Inr (Question.Type q), i2)"
    unfolding d2 i2_def i1_def using Read_uint16_in[of "pre @ ?n"] by simp
  have e2: "i2 = length (pre @ ?n @ ?t)"
    by (simp add: i2_def i1_def length_PutUint16)
  have r3: "Read_uint16 data i2 = (Inr (Question.Class q), i3)"
    unfolding d3 e2 i3_def using Read_uint16_in[of "pre @ ?n @ ?t"]
    by simp
  have e3: "i3 = length (pre @ ?n @ ?t @ ?c)"
    by (simp add: i3_def i2_def i1_def length_PutUint16)
  have ih: "parseQuestions data (length qs) i3
      (msg\<lparr>Questions := Questions msg @ [q]\<rparr>) =
      Some (msg\<lparr>Questions := Questions msg @ [q]\<rparr>
              \<lparr>Questions := Questions (msg\<lparr>Questions := Questions msg @ [q]\<rparr>) @ qs\<rparr>, None,
            i3 + length (concat (map Question_serialize qs)))"
    unfolding d4 e3 by (rule Cons.IH[OF vs])
  have "parseQuestions data (length (q # qs)) (length pre) msg =
      Some (msg\<lparr>Questions := Questions msg @ q # qs\<rparr>, None,
            i3 + length (concat (map Question_serialize qs)))"
    using ih by (simp add: r1 r2 r3 Question_eta)
  moreover have "i3 + length (concat (map Question_serialize qs)) =
      length pre + length (concat (map Question_serialize (q # qs)))"
    by (simp add: e3 Question_serialize_def)
  ultimately show ?case
    unfolding data_def by simp
qed

lemma RR_serialize_not_Nil: "RR_serialize r \<noteq> []"
  by (simp add: RR_serialize_def serializeDomain_def)

text \<open>
  The answer loop reads back the records that \<open>serialize\<close> wrote, provided the read
  of the data of the last record is not at the end of the buffer: bytes follow the
  records, or the last record has data.
\<close>

lemma parseAnswers_serialized:
  assumes "list_all (\<lambda>r. wellFormedName (RR.Name r) \<and> unat (Length r) = length (Data r)) rs"
    and "post \<noteq> [] \<or> rs = [] \<or> Data (last rs) \<noteq> []"
  shows "parseAnswers (pre @ concat (map RR_serialize rs) @ post) (length rs)
           (length pre) msg =
         Some (msg\<lparr>Answer := Answer msg @ rs\<rparr>, None,
               length pre + length (concat (map RR_serialize rs)))"
  using assms
proof (induction rs arbitrary: pre msg)
  case Nil
  show ?case by simp
next
  case (Cons r rs)
  let ?n = "serializeDomain (RR.Name r)"
  let ?t = "PutUint16 (RR.Type r)"
  let ?c = "PutUint16 (RR.Class r)"
  let ?l = "PutUint32 (TTL r)"
  let ?k = "PutUint16 (of_nat (length (Data r)))"
  let ?rest = "concat (map RR_serialize rs) @ post"
  define data where "data = pre @ concat (map RR_serialize (r # rs)) @ post"
  define i1 where "i1 = length pre + length ?n"
  define i2 where "i2 = i1 + 2"
  define i3 where "i3 = i2 + 2"
  define i4 where "i4 = i3 + 4"
  define i5 where "i5 = i4 + 2"
  define i6 where "i6 = i5 + length (Data r)"
  have v: "wellFormedName (RR.Name r)" and len: "unat (Length r) = length (Data r)"
    and vs: "list_all (\<lambda>r. wellFormedName (RR.Name r) \<and> unat (Length r) = length (Data r)) rs"
    using Cons.prems(1) by simp_all
  have k: "of_nat (length (Data r)) = Length r"
    using len[symmetric] by simp
  have ne: "Data r \<noteq> [] \<or> ?rest \<noteq> []"
    using Cons.prems(2) by (cases rs) (auto simp add: RR_serialize_not_Nil)
  have ps: "post \<noteq> [] \<or> rs = [] \<or> Data (last rs) \<noteq> []"
    using Cons.prems(2) by (cases rs) auto
  have d1: "data = pre @ ?n @ (?t @ ?c @ ?l @ ?k @ Data r @ ?rest)"
    and d2: "data = (pre @ ?n) @ ?t @ (?c @ ?l @ ?k @ Data r @ ?rest)"
    and d3: "data = (pre @ ?n @ ?t) @ ?c @ (?l @ ?k @ Data r @ ?rest)"
    and d4: "data = (pre @ ?n @ ?t @ ?c) @ ?l @ (?k @ Data r @ ?rest)"
    and d5: "data = (pre @ ?n @ ?t @ ?c @ ?l) @ ?k @ (Data r @ ?rest)"
    and d6: "data = (pre @ ?n @ ?t @ ?c @ ?l @ ?k) @ Data r @ ?rest"
    and d7: "data = (pre @ ?n @ ?t @ ?c @ ?l @ ?k @ Data r) @ concat (map RR_serialize rs) @ post"
    by (simp_all add: data_def RR_serialize_def)
  have e2: "i2 = length (pre @ ?n @ ?t)"
    and e3: "i3 = length (pre @ ?n @ ?t @ ?c)"
    and e4: "i4 = length (pre @ ?n @ ?t @ ?c @ ?l)"
    and e5: "i5 = length (pre @ ?n @ ?t @ ?c @ ?l @ ?k)"
    and e6: "i6 = length (pre @ ?n @ ?t @ ?c @ ?l @ ?k @ Data r)"
    by (simp_all add: i6_def i5_def i4_def i3_def i2_def i1_def length_PutUint16 length_PutUint32)
  have r1: "readName data (length pre) = Some (Inr (RR.Name r), i1)"
    unfolding d1 i1_def by (rule readName_serializeDomain[OF v])
  have r2: "Read_uint16 data i1 = (Inr (RR.Type r), i2)"
    unfolding d2 i2_def i1_def using Read_uint16_in[of "pre @ ?n"] by simp
  have r3: "Read_uint16 data i2 = (Inr (RR.Class r), i3)"
    unfolding d3 e2 i3_def using Read_uint16_in[of "pre @ ?n @ ?t"] by simp
  have r4: "Read_uint32 data i3 = (Inr (TTL r), i4)"
    unfolding d4 e3 i4_def using Read_uint32_in[of "pre @ ?n @ ?t @ ?c"] by simp
  have r5: "Read_uint16 data i4 = (Inr (Length r), i5)"
    unfolding d5 e4 i5_def using Read_uint16_in[of "pre @ ?n @ ?t @ ?c @ ?l"]
    by (simp add: k)
  have r6: "Reader_Read data i5 (unat (Length r)) = (Inr (Data r), i6)"
    unfolding d6 e5 i6_def len using Reader_Read_in[OF ne, of "pre @ ?n @ ?t @ ?c @ ?l @ ?k"]
    by simp
  have ih: "parseAnswers data (length rs) i6 (msg\<lparr>Answer := Answer msg @ [r]\<rparr>) =
      Some (msg\<lparr>Answer := Answer msg @ [r]\<rparr>
              \<lparr>Answer := Answer (msg\<lparr>Answer := Answer msg @ [r]\<rparr>) @ rs\<rparr>, None,
            i6 + length (concat (map RR_serialize rs)))"
    unfolding d7 e6 by (rule Cons.IH[OF vs ps])
  have "parseAnswers data (length (r # rs)) (length pre) msg =
      Some (msg\<lparr>Answer := Answer msg @ r # rs\<rparr>, None,
            i6 + length (concat (map RR_serialize rs)))"
    using ih by (simp add: r1 r2 r3 r4 r5 r6 RR_eta)
  moreover have "i6 + length (concat (map RR_serialize rs)) =
      length pre + length (concat (map RR_serialize (r # rs)))"
    by (simp add: e6 RR_serialize_def)
  ultimately show ?case
    unfolding data_def by simp
qed

text \<open>
  Decoding the encoding of a well-formed message gives the message back, unless its
  last answer has no data.
\<close>

lemma parseDNSMessage_DNSMessage_serialize:
  assumes "wellFormed m" and "Answer m = [] \<or> Data (last (Answer m)) \<noteq> []"
  shows "parseDNSMessage (DNSMessage_serialize m) = Some (m, None)"
proof -
  let ?h = "Header_serialize (Header m)"
  let ?qs = "concat (map Question_serialize (Questions m))"
  let ?rs = "concat (map RR_serialize (Answer m))"
  define data where "data = DNSMessage_serialize m"
  define msg1 where "msg1 = zeroDNSMessage\<lparr>Header := Header m\<rparr>"
  define msg2 where "msg2 = msg1\<lparr>Questions := Questions msg1 @ Questions m\<rparr>"
  define i where "i = length (?h @ ?qs)"
  have w: "wellFormedHeader (Header m)"
    and qd: "unat (QDCOUNT (Header m)) = length (Questions m)"
    and an: "unat (ANCOUNT (Header m)) = length (Answer m)"
    and wq: "list_all (\<lambda>q. wellFormedName (Question.Name q)) (Questions m)"
    and wr: "list_all (\<lambda>r. wellFormedName (RR.Name r) \<and> unat (Length r) = length (Data r))
               (Answer m)"
    using assms(1) by (simp_all add: wellFormed_def)
  have d1: "data = ?h @ (?qs @ ?rs)"
    and d2: "data = ?h @ ?qs @ ?rs"
    and d3: "data = (?h @ ?qs) @ ?rs @ []"
    by (simp_all add: data_def DNSMessage_serialize_def)
  have h: "parseHeader data = Inr (Header m)"
    unfolding d1 using w
    by (intro parseHeader_Header_serialize_append) (simp_all add: wellFormedHeader_def)
  have q: "parseQuestions data (unat (QDCOUNT (Header m))) 12 msg1 =
      Some (msg2, None, i)"
    unfolding d2 qd msg2_def i_def
    using parseQuestions_serialized[OF wq, of ?h ?rs msg1]
    by (simp add: length_Header_serialize)
  have hm: "Header msg2 = Header m"
    by (simp add: msg2_def msg1_def)
  have a: "parseAnswers data (unat (ANCOUNT (Header msg2))) i msg2 =
      Some (msg2\<lparr>Answer := Answer msg2 @ Answer m\<rparr>, None, i + length ?rs)"
    unfolding d3 hm an i_def
    by (rule parseAnswers_serialized[OF wr]) (use assms(2) in simp)
  have m: "msg2\<lparr>Answer := Answer msg2 @ Answer m\<rparr> = m"
    by (cases m) (simp add: msg2_def msg1_def zeroDNSMessage_def)
  show ?thesis
    unfolding data_def[symmetric]
    by (simp add: parseDNSMessage_def h msg1_def[symmetric] q a m)
qed

section \<open>Record data at the end of the buffer\<close>

text \<open>
  C4 (the code does not do this). \<open>shortDataReply\<close> declares four data bytes for its
  answer and holds one. \<open>parseDNSMessage\<close> returns no error: the record is accepted
  with the one byte followed by three zero bytes.
\<close>

theorem parseDNSMessage_short_data_accepted:
  "parseDNSMessage shortDataReply =
     Some (\<lparr>Header = \<lparr>ID = 0x1234, QR = 1, OPCODE = 0, AA = 0, TC = 0, RD = 1,
                       RA = 0, Z = 0, RCODE = 0, QDCOUNT = 0, ANCOUNT = 1,
                       NSCOUNT = 0, ARCOUNT = 0\<rparr>,
            Questions = [],
            Answer = [\<lparr>RR.Name = [97], Type = 1, Class = 1, TTL = 60, Length = 4,
                       Data = [8, 0, 0, 0]\<rparr>]\<rparr>, None)"
  by code_simp

text \<open>
  C2 (the code does not do this). \<open>emptyDataMessage\<close> is well-formed: matching
  counts, a name of one label and \<open>Length = len(Data) = 0\<close>. Its encoding ends with
  the length field of the answer, so the read of the zero data bytes is at the end of
  the buffer and returns \<open>io.EOF\<close>: decoding the encoding fails and returns the
  message without its answer.
\<close>

theorem parseDNSMessage_serialize_empty_data_fails:
  "wellFormed emptyDataMessage
   \<and> Data (last (Answer emptyDataMessage)) = []
   \<and> DNSMessage_serialize emptyDataMessage =
       [0x12, 0x34, 0x81, 0x00, 0, 0, 0, 1, 0, 0, 0, 0,
        1, 97, 0, 0, 16, 0, 1, 0, 0, 0, 60, 0, 0]
   \<and> parseDNSMessage (DNSMessage_serialize emptyDataMessage) =
       Some (emptyDataMessage\<lparr>Answer := []\<rparr>, Some (FailedRRData EOF))"
  by code_simp

section \<open>The length field of an encoded record\<close>

text \<open>The length field of an encoded record and the bytes after it.\<close>

lemma RR_serialize_fields:
  "take 2 (drop (length (serializeDomain (RR.Name r)) + 8) (RR_serialize r)) =
     PutUint16 (of_nat (length (Data r)))"
  "drop (length (serializeDomain (RR.Name r)) + 10) (RR_serialize r) = Data r"
  by (simp_all add: RR_serialize_def length_PutUint16 length_PutUint32)

text \<open>
  The length field is two bytes: for \<open>longDataRR\<close>, with 65536 data bytes, it holds
  0, and 65536 bytes follow it.
\<close>

theorem RR_serialize_length_field_counterexample:
  "unat (Uint16 (take 2 (drop (length (serializeDomain (RR.Name longDataRR)) + 8)
           (RR_serialize longDataRR)))) = 0
   \<and> length (drop (length (serializeDomain (RR.Name longDataRR)) + 10)
           (RR_serialize longDataRR)) = 65536"
  by (simp add: RR_serialize_fields Uint16_PutUint16) (simp add: longDataRR_def)

text \<open>
  C10, as the code has it. For every record with at most 65535 data bytes, the two
  bytes that \<open>RR.serialize\<close> writes after the name, type, class and TTL hold the
  number of bytes that follow them, and these are the data; the \<open>Length\<close> field of
  the record has no effect on the encoding.
\<close>

theorem RR_serialize_length_field:
  assumes "length (Data r) < 65536"
  shows "unat (Uint16 (take 2 (drop (length (serializeDomain (RR.Name r)) + 8)
                  (RR_serialize r))))
           = length (drop (length (serializeDomain (RR.Name r)) + 10) (RR_serialize r))
    \<and> drop (length (serializeDomain (RR.Name r)) + 10) (RR_serialize r) = Data r
    \<and> RR_serialize (r\<lparr>Length := l\<rparr>) = RR_serialize r"
  using assms
  by (simp add: RR_serialize_fields Uint16_PutUint16 unat_of_nat_uint16)
     (simp add: RR_serialize_def)

theorem RR_serialize_length_field_witness:
  "length (Data lengthMismatchRR) < 65536
   \<and> unat (Length lengthMismatchRR) = 9
   \<and> length (Data lengthMismatchRR) = 4
   \<and> RR_serialize lengthMismatchRR = [1, 97, 0, 0, 1, 0, 1, 0, 0, 0, 60, 0, 4, 8, 8, 8, 8]
   \<and> unat (Uint16 (take 2 (drop (length (serializeDomain (RR.Name lengthMismatchRR)) + 8)
                  (RR_serialize lengthMismatchRR)))) = 4
   \<and> drop (length (serializeDomain (RR.Name lengthMismatchRR)) + 10)
        (RR_serialize lengthMismatchRR) = [8, 8, 8, 8]"
proof -
  have s: "RR_serialize lengthMismatchRR = [1, 97, 0, 0, 1, 0, 1, 0, 0, 0, 60, 0, 4, 8, 8, 8, 8]"
    by code_simp
  have d: "length (Data lengthMismatchRR) < 65536" "unat (Length lengthMismatchRR) = 9"
    "length (Data lengthMismatchRR) = 4" "Data lengthMismatchRR = [8, 8, 8, 8]"
    by (simp_all add: lengthMismatchRR_def)
  have n: "serializeDomain (RR.Name lengthMismatchRR) = [1, 97, 0]"
    by code_simp
  from RR_serialize_length_field[OF d(1), of 9] show ?thesis
    by (simp add: s d n)
qed

section \<open>Local synthesis\<close>

text \<open>
  C3. For every request that \<open>parseDNSMessage\<close> returns, the response of
  local-synthesis mode (empty resolver flag) is \<open>generateResponse\<close> of it, with
  nothing sent upstream: one answer per question of the request, in order, with the
  question's name, type 1, class 1, TTL 60 and the data \<open>08 08 08 08\<close>; QR = 1,
  OPCODE, RD and RA copied, AA = TC = Z = 0, RCODE 0 for OPCODE 0 (and 4 otherwise),
  and QDCOUNT and ANCOUNT both the number of questions of the request.
\<close>

theorem generateResponse_local_synthesis:
  assumes "parseDNSMessage data = Some (dnsRequest, err)"
  shows "respond [] upstream dnsRequest = Some (generateResponse dnsRequest, [])
    \<and> Answer (generateResponse dnsRequest) =
        map (\<lambda>reqQ. \<lparr>RR.Name = Question.Name reqQ, Type = 1, Class = 1, TTL = 60,
                      Length = 4, Data = [8, 8, 8, 8]\<rparr>) (Questions dnsRequest)
    \<and> QR (Header (generateResponse dnsRequest)) = 1
    \<and> OPCODE (Header (generateResponse dnsRequest)) = OPCODE (Header dnsRequest)
    \<and> AA (Header (generateResponse dnsRequest)) = 0
    \<and> TC (Header (generateResponse dnsRequest)) = 0
    \<and> RD (Header (generateResponse dnsRequest)) = RD (Header dnsRequest)
    \<and> RA (Header (generateResponse dnsRequest)) = RA (Header dnsRequest)
    \<and> Z (Header (generateResponse dnsRequest)) = 0
    \<and> RCODE (Header (generateResponse dnsRequest)) =
        (if OPCODE (Header dnsRequest) = 0 then 0 else 4)
    \<and> unat (QDCOUNT (Header (generateResponse dnsRequest))) = length (Questions dnsRequest)
    \<and> unat (ANCOUNT (Header (generateResponse dnsRequest))) = length (Questions dnsRequest)"
  using parseDNSMessage_Questions_length[OF assms]
  by (simp add: respond_def generateResponse_def Let_def newRR_def unat_of_nat_uint16)

lemma parse_scenarioQuery: "parseDNSMessage scenarioQuery = Some (scenarioRequest, None)"
  by code_simp

theorem generateResponse_local_synthesis_witness:
  "parseDNSMessage scenarioQuery = Some (scenarioRequest, None)
   \<and> respond [] None scenarioRequest = Some (generateResponse scenarioRequest, [])
   \<and> Answer (generateResponse scenarioRequest) =
       [\<lparr>RR.Name = [99, 111, 100, 101, 99, 114, 97, 102, 116, 101, 114, 115, 46, 105, 111],
         Type = 1, Class = 1, TTL = 60, Length = 4, Data = [8, 8, 8, 8]\<rparr>]
   \<and> ID (Header (generateResponse scenarioRequest)) = 0x1234
   \<and> QR (Header (generateResponse scenarioRequest)) = 1
   \<and> RCODE (Header (generateResponse scenarioRequest)) = 0
   \<and> unat (QDCOUNT (Header (generateResponse scenarioRequest))) = 1
   \<and> unat (ANCOUNT (Header (generateResponse scenarioRequest))) = 1"
  using generateResponse_local_synthesis[OF parse_scenarioQuery, of None]
  by (simp add: parse_scenarioQuery) (simp add: scenarioRequest_def generateResponse_def Let_def)

section \<open>Requests with another opcode\<close>

text \<open>
  The request decoded from \<open>opcode1Query\<close> has OPCODE 1 and a question of type 28.
  The response has RCODE 4, but its question has type 1: the questions are not echoed
  as they came.
\<close>

theorem generateResponse_question_type_counterexample:
  "parseDNSMessage opcode1Query = Some (opcode1Request, None)
   \<and> OPCODE (Header opcode1Request) = 1
   \<and> map Question.Type (Questions opcode1Request) = [28]
   \<and> RCODE (Header (generateResponse opcode1Request)) = 4
   \<and> map Question.Type (Questions (generateResponse opcode1Request)) = [1]
   \<and> Questions (generateResponse opcode1Request) \<noteq> Questions opcode1Request"
  by code_simp

text \<open>
  C6, as the code has it. For every request whose OPCODE is not 0 the response of
  \<open>generateResponse\<close> has RCODE 4 and the ID, OPCODE, RD and RA of the request, and
  one question per question of the request, in order, with the name of that question
  and with type 1 and class 1 whatever its type and class were.
\<close>

theorem generateResponse_nonzero_opcode:
  assumes "OPCODE (Header dnsRequest) \<noteq> 0"
  shows "RCODE (Header (generateResponse dnsRequest)) = 4
    \<and> ID (Header (generateResponse dnsRequest)) = ID (Header dnsRequest)
    \<and> OPCODE (Header (generateResponse dnsRequest)) = OPCODE (Header dnsRequest)
    \<and> RD (Header (generateResponse dnsRequest)) = RD (Header dnsRequest)
    \<and> RA (Header (generateResponse dnsRequest)) = RA (Header dnsRequest)
    \<and> Questions (generateResponse dnsRequest) =
        map (\<lambda>reqQ. \<lparr>Question.Name = Question.Name reqQ, Type = 1, Class = 1\<rparr>)
          (Questions dnsRequest)"
  using assms by (simp add: generateResponse_def Let_def newQuestion_def)

theorem generateResponse_nonzero_opcode_witness:
  "OPCODE (Header opcode1Request) \<noteq> 0
   \<and> RCODE (Header (generateResponse opcode1Request)) = 4
   \<and> ID (Header (generateResponse opcode1Request)) = 0x1234
   \<and> OPCODE (Header (generateResponse opcode1Request)) = 1
   \<and> RD (Header (generateResponse opcode1Request)) = 1
   \<and> RA (Header (generateResponse opcode1Request)) = 0
   \<and> Questions (generateResponse opcode1Request) =
       [\<lparr>Question.Name = [99, 111, 100, 101, 99, 114, 97, 102, 116, 101, 114, 115, 46, 105, 111],
         Type = 1, Class = 1\<rparr>]"
  using generateResponse_nonzero_opcode[of opcode1Request]
  by (simp add: opcode1Request_def)

section \<open>Forward mode\<close>

text \<open>
  When the loop over the questions returns, it has sent one encoded
  \<open>generateRequest\<close> per question, in order, and appended at most one answer per
  question.
\<close>

lemma forwardLoop_result:
  "forwardLoop upstream k dnsRequest reqQs answer sent = Some (answer', sent') \<Longrightarrow>
     length answer' \<le> length answer + length reqQs
     \<and> sent' = sent @ map (\<lambda>reqQ. DNSMessage_serialize (generateRequest dnsRequest reqQ)) reqQs"
proof (induction reqQs arbitrary: k answer sent)
  case Nil
  then show ?case by simp
next
  case (Cons reqQ reqQs)
  let ?out = "DNSMessage_serialize (generateRequest dnsRequest reqQ)"
  from Cons.prems obtain conn where u: "upstream = Some conn"
    by (cases upstream) (simp_all add: Let_def)
  from Cons.prems u obtain reply where r: "conn k ?out = Some reply"
    by (cases "conn k ?out") (simp_all add: Let_def)
  from Cons.prems u r obtain dnsResponse :: DNSMessage where
    l: "forwardLoop upstream (Suc k) dnsRequest reqQs
          (if 0 < length (Answer dnsResponse)
           then answer @ [Answer dnsResponse ! 0] else answer)
          (sent @ [?out]) = Some (answer', sent')"
    by (auto simp add: Let_def bind_eq_Some_conv)
  from Cons.IH[OF l] show ?case
    by (simp split: if_splits)
qed

text \<open>
  The nil connection: the first \<open>conn.Write\<close> panics, so forward mode has no result
  for a request with a question.
\<close>

lemma respond_nil_conn:
  assumes "resolverFlag \<noteq> []" and "Questions dnsRequest \<noteq> []"
  shows "respond resolverFlag None dnsRequest = None"
  using assms by (cases "Questions dnsRequest") (simp_all add: respond_def Let_def)

text \<open>
  What holds of every response of forward mode to a decoded request: the datagrams
  sent upstream are the encodings of \<open>generateRequest\<close> for each question, in order;
  each such sub-request holds exactly that question and no answer, the ID, OPCODE, RD
  and RA of the request, QR = 0, RCODE = 0 and QDCOUNT = 1; ANCOUNT is the number of
  answers of the response, and it is at most QDCOUNT, the number of questions.
\<close>

lemma respond_forward_result:
  assumes "parseDNSMessage data = Some (dnsRequest, err)"
    and "resolverFlag \<noteq> []"
    and "respond resolverFlag upstream dnsRequest = Some (response, sent)"
  shows "sent = map (\<lambda>reqQ. DNSMessage_serialize (generateRequest dnsRequest reqQ))
                  (Questions dnsRequest)
    \<and> (\<forall>reqQ. Questions (generateRequest dnsRequest reqQ) = [reqQ]
           \<and> Answer (generateRequest dnsRequest reqQ) = []
           \<and> ID (Header (generateRequest dnsRequest reqQ)) = ID (Header dnsRequest)
           \<and> OPCODE (Header (generateRequest dnsRequest reqQ)) = OPCODE (Header dnsRequest)
           \<and> RD (Header (generateRequest dnsRequest reqQ)) = RD (Header dnsRequest)
           \<and> RA (Header (generateRequest dnsRequest reqQ)) = RA (Header dnsRequest)
           \<and> QR (Header (generateRequest dnsRequest reqQ)) = 0
           \<and> RCODE (Header (generateRequest dnsRequest reqQ)) = 0
           \<and> QDCOUNT (Header (generateRequest dnsRequest reqQ)) = 1)
    \<and> unat (ANCOUNT (Header response)) = length (Answer response)
    \<and> unat (QDCOUNT (Header response)) = length (Questions dnsRequest)
    \<and> unat (ANCOUNT (Header response)) \<le> unat (QDCOUNT (Header response))"
proof -
  from assms(2,3) obtain answer where
    f: "forwardLoop upstream 0 dnsRequest (Questions dnsRequest) [] [] = Some (answer, sent)"
    and r: "response = (generateResponse dnsRequest)
              \<lparr>Answer := answer,
               Header := (Header (generateResponse dnsRequest))
                 \<lparr>ANCOUNT := of_nat (length answer)\<rparr>\<rparr>"
    by (auto simp add: respond_def Let_def bind_eq_Some_conv)
  from forwardLoop_result[OF f]
  have la: "length answer \<le> length (Questions dnsRequest)"
    and s: "sent = map (\<lambda>reqQ. DNSMessage_serialize (generateRequest dnsRequest reqQ))
                     (Questions dnsRequest)"
    by simp_all
  have n: "length (Questions dnsRequest) < 65536"
    using parseDNSMessage_Questions_length[OF assms(1)] .
  have c: "unat (ANCOUNT (Header response)) = length answer"
    using la n by (simp add: r unat_of_nat_uint16)
  have q: "unat (QDCOUNT (Header response)) = length (Questions dnsRequest)"
    using n by (simp add: r generateResponse_def Let_def unat_of_nat_uint16)
  have g: "\<forall>reqQ. Questions (generateRequest dnsRequest reqQ) = [reqQ]
           \<and> Answer (generateRequest dnsRequest reqQ) = []
           \<and> ID (Header (generateRequest dnsRequest reqQ)) = ID (Header dnsRequest)
           \<and> OPCODE (Header (generateRequest dnsRequest reqQ)) = OPCODE (Header dnsRequest)
           \<and> RD (Header (generateRequest dnsRequest reqQ)) = RD (Header dnsRequest)
           \<and> RA (Header (generateRequest dnsRequest reqQ)) = RA (Header dnsRequest)
           \<and> QR (Header (generateRequest dnsRequest reqQ)) = 0
           \<and> RCODE (Header (generateRequest dnsRequest reqQ)) = 0
           \<and> QDCOUNT (Header (generateRequest dnsRequest reqQ)) = 1"
    by (simp add: generateRequest_def Let_def)
  have ar: "Answer response = answer"
    by (simp add: r)
  from s g c q la ar show ?thesis
    by simp
qed

text \<open>
  A reply that holds its records: of the two answers of the first reply the first is
  appended, and the second exchange, in which nothing arrives, adds none.
\<close>

lemma parse_twoQuestionQuery:
  "parseDNSMessage twoQuestionQuery = Some (twoQuestionRequest, None)"
  by code_simp

lemma respond_twoQuestionRequest:
  "respond resolver8888 firstOnlyUpstream twoQuestionRequest =
     Some (firstOnlyResponse,
           [[0x12, 0x34, 0x01, 0x00, 0, 1, 0, 0, 0, 0, 0, 0, 1, 97, 0, 0, 28, 0, 1],
            [0x12, 0x34, 0x01, 0x00, 0, 1, 0, 0, 0, 0, 0, 0, 1, 98, 0, 0, 1, 0, 1]])"
  by code_simp

text \<open>
  C5 (the code does not do this). The upstream reply \<open>headerOnlyReply\<close> announces one
  answer and holds none: decoding it fails at the name of the record and gives a
  message without answers. Forward mode, for the request of \<open>scenarioQuery\<close> with this
  reply on an open connection, sends the one sub-request and still appends an answer:
  it decodes the 512-byte buffer, where zero bytes follow the 12 bytes received, and
  these read as a record with an empty name, type 0, class 0, TTL 0 and no data. The
  response has ANCOUNT 1 and this record, which the reply does not hold. On the nil
  connection of a resolver address that does not resolve, forward mode has no result
  at all for this request.
\<close>

theorem forward_mode_appends_record_from_padding:
  "parseDNSMessage scenarioQuery = Some (scenarioRequest, None)
   \<and> parseDNSMessage headerOnlyReply =
       Some (\<lparr>Header = \<lparr>ID = 0x1234, QR = 1, OPCODE = 0, AA = 0, TC = 0, RD = 1,
                         RA = 1, Z = 0, RCODE = 0, QDCOUNT = 0, ANCOUNT = 1,
                         NSCOUNT = 0, ARCOUNT = 0\<rparr>,
              Questions = [], Answer = []\<rparr>,
             Some (FailedRRName (FailedNameLength EOF)))
   \<and> respond resolver8888 headerOnlyUpstream scenarioRequest =
       Some (\<lparr>Header = \<lparr>ID = 0x1234, QR = 1, OPCODE = 0, AA = 0, TC = 0, RD = 1,
                         RA = 0, Z = 0, RCODE = 0, QDCOUNT = 1, ANCOUNT = 1,
                         NSCOUNT = 0, ARCOUNT = 0\<rparr>,
              Questions = [\<lparr>Question.Name = [99, 111, 100, 101, 99, 114, 97, 102, 116,
                                               101, 114, 115, 46, 105, 111],
                            Type = 1, Class = 1\<rparr>],
              Answer = [\<lparr>RR.Name = [], Type = 0, Class = 0, TTL = 0, Length = 0,
                         Data = []\<rparr>]\<rparr>,
             [[0x12, 0x34, 0x01, 0x00, 0, 1, 0, 0, 0, 0, 0, 0,
               12, 99, 111, 100, 101, 99, 114, 97, 102, 116, 101, 114, 115, 2, 105, 111, 0,
               0, 1, 0, 1]])
   \<and> respond resolver8888 None scenarioRequest = None"
  by code_simp

section \<open>Datagrams that fail to decode\<close>

text \<open>
  Decoding \<open>truncatedQuery\<close> fails at the name of the second question. In
  local-synthesis mode the server still writes a response: the one generated from the
  message decoded so far, with one question, one answer and RCODE 0.
\<close>

theorem decode_error_response_sent_counterexample:
  "parseDNSMessage (take 512 truncatedQuery) =
     Some (truncatedRequest, Some (FailedQuestionName (FailedNameLength EOF)))
   \<and> handleDatagram [] None truncatedQuery =
       Some [0x12, 0x34, 0x81, 0x00, 0, 1, 0, 1, 0, 0, 0, 0,
             1, 97, 0, 0, 1, 0, 1,
             1, 97, 0, 0, 1, 0, 1, 0, 0, 0, 60, 0, 4, 8, 8, 8, 8]
   \<and> RCODE (Header (generateResponse truncatedRequest)) = 0"
  by code_simp

lemma RCODE_generateResponse:
  "RCODE (Header (generateResponse dnsRequest)) = (if OPCODE (Header dnsRequest) = 0 then 0 else 4)"
  by (simp add: generateResponse_def Let_def)

text \<open>
  C9, as the code has it. For every datagram whose decoding returns an error, the
  iteration of the server loop discards the error and builds its response, in either
  mode, from the message that the decoder returned with it. In local-synthesis mode
  the iteration does not stop and does not drop the datagram: it writes the encoding
  of \<open>generateResponse\<close> of that message, and the loop goes on with the next
  datagram. That response has one question and one answer per question decoded before
  the error, QR = 1, and RCODE 0 or 4 after the decoded OPCODE, never 1 (format error).
\<close>

theorem decode_error_is_ignored:
  assumes "parseDNSMessage (take 512 dgram) = Some (msg, Some e)"
  shows "handleDatagram resolverFlag upstream dgram =
        Option.bind (respond resolverFlag upstream msg)
          (\<lambda>(response, sent). Some (DNSMessage_serialize response))
    \<and> handleDatagram [] upstream dgram = Some (DNSMessage_serialize (generateResponse msg))
    \<and> serve [] upstream (dgram # dgrams) =
        map_option (\<lambda>responses. DNSMessage_serialize (generateResponse msg) # responses)
          (serve [] upstream dgrams)
    \<and> Questions (generateResponse msg) =
        map (\<lambda>reqQ. newQuestion (Question.Name reqQ)) (Questions msg)
    \<and> Answer (generateResponse msg) =
        map (\<lambda>reqQ. newRR (Question.Name reqQ)) (Questions msg)
    \<and> QR (Header (generateResponse msg)) = 1
    \<and> RCODE (Header (generateResponse msg)) = (if OPCODE (Header msg) = 0 then 0 else 4)
    \<and> RCODE (Header (generateResponse msg)) \<noteq> 1"
proof -
  have b: "handleDatagram resolverFlag upstream dgram =
        Option.bind (respond resolverFlag upstream msg)
          (\<lambda>(response, sent). Some (DNSMessage_serialize response))"
    using assms by (simp add: handleDatagram_def)
  have h: "handleDatagram [] upstream dgram = Some (DNSMessage_serialize (generateResponse msg))"
    using assms by (simp add: handleDatagram_def respond_def)
  have s: "serve [] upstream (dgram # dgrams) =
        map_option (\<lambda>responses. DNSMessage_serialize (generateResponse msg) # responses)
          (serve [] upstream dgrams)"
    by (cases "serve [] upstream dgrams") (simp_all add: h)
  have q: "Questions (generateResponse msg) =
        map (\<lambda>reqQ. newQuestion (Question.Name reqQ)) (Questions msg)"
    and a: "Answer (generateResponse msg) =
        map (\<lambda>reqQ. newRR (Question.Name reqQ)) (Questions msg)"
    and qr: "QR (Header (generateResponse msg)) = 1"
    by (simp_all add: generateResponse_def Let_def)
  have r: "RCODE (Header (generateResponse msg)) \<noteq> 1"
    by (simp add: RCODE_generateResponse)
  from b h s q a qr r RCODE_generateResponse[of msg] show ?thesis
    by blast
qed

theorem decode_error_is_ignored_witness:
  "parseDNSMessage (take 512 truncatedQuery) =
     Some (truncatedRequest, Some (FailedQuestionName (FailedNameLength EOF)))
   \<and> handleDatagram [] None truncatedQuery =
       Some (DNSMessage_serialize (generateResponse truncatedRequest))
   \<and> serve [] None [truncatedQuery, truncatedQuery] =
       Some [DNSMessage_serialize (generateResponse truncatedRequest),
             DNSMessage_serialize (generateResponse truncatedRequest)]
   \<and> unat (QDCOUNT (Header truncatedRequest)) = 2
   \<and> Questions (generateResponse truncatedRequest) =
       [\<lparr>Question.Name = [97], Type = 1, Class = 1\<rparr>]
   \<and> Answer (generateResponse truncatedRequest) =
       [\<lparr>RR.Name = [97], Type = 1, Class = 1, TTL = 60, Length = 4, Data = [8, 8, 8, 8]\<rparr>]
   \<and> QR (Header (generateResponse truncatedRequest)) = 1
   \<and> RCODE (Header (generateResponse truncatedRequest)) = 0"
proof -
  have p: "parseDNSMessage (take 512 truncatedQuery) =
     Some (truncatedRequest, Some (FailedQuestionName (FailedNameLength EOF)))"
    by code_simp
  note t = decode_error_is_ignored[OF p, of "[]" None]
  from t[of "[truncatedQuery]"] t[of "[]"] show ?thesis
    by (simp add: p) (simp add: truncatedRequest_def newQuestion_def newRR_def)
qed

end
